theory Spec2Isabelle
  imports Complex_Main "HOL-Library.Char_ord" "HOL-Library.List_Lexorder"
begin

section \<open>Formatter (src/utils/format.ts)\<close>

text \<open>
  JavaScript numbers that reach the formatters here are integer valued (a difference of
  two \<open>Date.now()\<close> readings, a byte count), so they are modelled as \<open>int\<close>, an absent
  argument (\<open>undefined\<close>) as \<open>None\<close>. Below \<open>2 ^ 53\<close> every value the formatters
  compute is represented exactly by a double: a division by 1024 only changes the exponent.
  The quotient is therefore modelled as an exact rational.

  A template literal prints an integer-valued number in decimal.
\<close>

definition digit_char :: "nat \<Rightarrow> char" where
  "digit_char d = ''0123456789'' ! d"

function string_of_nat :: "nat \<Rightarrow> string" where
  "string_of_nat n =
     (if n < 10 then [digit_char n]
      else string_of_nat (n div 10) @ [digit_char (n mod 10)])"
  by pat_completeness auto
termination
  by (relation "measure id") auto

declare string_of_nat.simps [simp del]

definition string_of_int :: "int \<Rightarrow> string" where
  "string_of_int i =
     (if i < 0 then ''-'' @ string_of_nat (nat (- i)) else string_of_nat (nat i))"

text \<open>
  \<open>formatUptime\<close>: the guard \<open>!ms || ms < 0\<close> is true for \<open>undefined\<close>, for \<open>0\<close> and
  for negative numbers.
\<close>

definition formatUptime :: "int option \<Rightarrow> string" where
  "formatUptime ms' =
     (case ms' of
        None \<Rightarrow> ''-''
      | Some ms \<Rightarrow>
          if ms = 0 \<or> ms < 0 then ''-''
          else
            let totalSeconds = ms div 1000;
                hours = totalSeconds div 3600;
                minutes = (totalSeconds mod 3600) div 60;
                seconds = totalSeconds mod 60
            in if hours > 0
               then string_of_int hours @ ''h '' @ string_of_int minutes @ ''m''
               else if minutes > 0
               then string_of_int minutes @ ''m '' @ string_of_int seconds @ ''s''
               else string_of_int seconds @ ''s'')"

text \<open>
  \<open>Number.prototype.toFixed\<close> (ECMA-262): with \<open>n\<close> the integer for which
  \<open>n / 10 ^ f - x\<close> is closest to zero (the larger one on a tie), the digits of \<open>n\<close>,
  padded with zeros on the left to \<open>f + 1\<close> digits, with a point before the last \<open>f\<close>.
\<close>

definition toFixed :: "rat \<Rightarrow> nat \<Rightarrow> string" where
  "toFixed x f =
     (let sgn = (if x < 0 then ''-'' else '''');
          y = (if x < 0 then - x else x);
          n = nat \<lfloor>y * 10 ^ f + 1 / 2\<rfloor>;
          m = string_of_nat n
      in if f = 0 then sgn @ m
         else
           let m' = replicate (f + 1 - length m) (CHR ''0'') @ m;
               k = length m' - f
           in sgn @ take k m' @ ''.'' @ drop k m')"

definition units :: "string list" where
  "units = [''B'', ''KB'', ''MB'', ''GB'']"

function formatBytes_loop :: "rat \<Rightarrow> nat \<Rightarrow> rat \<times> nat" where
  "formatBytes_loop current unitIndex =
     (if current \<ge> 1024 \<and> unitIndex < length units - 1
      then formatBytes_loop (current / 1024) (unitIndex + 1)
      else (current, unitIndex))"
  by pat_completeness auto
termination
  by (relation "measure (\<lambda>(current, unitIndex). length units - 1 - unitIndex)") auto

declare formatBytes_loop.simps [simp del]

definition formatBytes :: "int option \<Rightarrow> string" where
  "formatBytes bytes' =
     (case bytes' of
        None \<Rightarrow> ''-''
      | Some bytes \<Rightarrow>
          if bytes = 0 \<or> bytes \<le> 0 then ''-''
          else
            let (current, unitIndex) = formatBytes_loop (of_int bytes) 0
            in toFixed current (if current \<ge> 100 then 0 else 1) @ '' '' @ units ! unitIndex)"

text \<open>
  The unit a formatted uptime leads with, read off the output string: the first character
  after the leading digits. Rank 0 is the placeholder \<open>-\<close>, then seconds, minutes, hours.
\<close>

definition isDigit :: "char \<Rightarrow> bool" where
  "isDigit c = (c \<in> set ''0123456789'')"

definition displayedUnit :: "string \<Rightarrow> nat" where
  "displayedUnit out =
     (case dropWhile isDigit out of
        [] \<Rightarrow> 0
      | c # _ \<Rightarrow>
          if c = CHR ''s'' then 1 else if c = CHR ''m'' then 2
          else if c = CHR ''h'' then 3 else 0)"

section \<open>The PM2 client (src/services/pm2Client.ts)\<close>

type_synonym error = string

datatype Instances = Count int | Max

record ManagedProcess =
  pmId :: int
  name :: string
  namespace :: "string option"
  pid :: "int option"
  status :: string
  uptime :: "int option"
  cpu :: "rat option"
  memory :: "int option"
  instances :: "Instances option"
  restarts :: "int option"
  script :: "string option"
  execMode :: "string option"

text \<open>What the pm2 library reports for one process (the fields \<open>listProcesses\<close> reads).\<close>

record Pm2Env =
  env_namespace :: "string option"
  env_status :: "string option"
  pm_uptime :: "int option"
  env_instances :: "Instances option"
  restart_time :: "int option"
  pm_exec_path :: "string option"
  exec_mode :: "string option"

record Monit =
  monit_cpu :: "rat option"
  monit_memory :: "int option"

record ProcessDescription =
  pm_id :: "int option"
  pd_name :: "string option"
  pd_pid :: "int option"
  pm2_env :: "Pm2Env option"
  monit :: "Monit option"

text \<open>
  The pm2 daemon is outside the program. Every call the client makes to the pm2 library
  is recorded, oldest first, and the daemon's answer to a call may depend on all the calls
  before it: \<open>listReply\<close> answers \<open>pm2.list\<close>, \<open>cmdReply\<close> answers every other call
  (\<open>Some e\<close> is the callback's error argument). \<open>clock\<close> is \<open>Date.now()\<close>.
\<close>

datatype Target = ById int | ByName string

datatype Call =
    Connect | Disconnect | ListCall
  | StartCall Target | StopCall Target | RestartCall Target
  | DeleteCall Target | ReloadCall Target

record Pm2 =
  listReply :: "Call list \<Rightarrow> error + ProcessDescription list"
  cmdReply :: "Call list \<Rightarrow> Call \<Rightarrow> error option"
  clock :: int

section \<open>The dashboard state (src/ui/app.ts)\<close>

datatype ViewMode = All | Running | Stopped

datatype Severity = Info | Success | Warning | Error

record LogLine =
  processName :: string
  data :: string
  isError :: bool

text \<open>
  The fields of \<open>App\<close> and of its \<open>PM2Client\<close> that the operations below read or write.
  \<open>calls\<close> is the record of pm2 library calls; \<open>notifications\<close> lists what
  \<open>showNotification\<close> was asked to show and \<open>logLines\<close> what \<open>logBox.log\<close> was given,
  oldest first; \<open>exited\<close> records that \<open>process.exit\<close> was called. The other widgets
  are written by the render functions and never read back; they are not part of the state.
  Message literals are kept without their pictographs.
\<close>

record App =
  connected :: bool
  calls :: "Call list"
  processes :: "ManagedProcess list"
  selectedIndex :: int
  paused :: bool
  searchMode :: bool
  searchQuery :: string
  filteredProcesses :: "ManagedProcess list"
  viewMode :: ViewMode
  notifications :: "(Severity \<times> string) list"
  logLines :: "LogLine list"
  exited :: bool

definition initialApp :: App where
  "initialApp =
     \<lparr>connected = False, calls = [], processes = [], selectedIndex = 0, paused = False,
      searchMode = False, searchQuery = [], filteredProcesses = [], viewMode = All,
      notifications = [], logLines = [], exited = False\<rparr>"

subsection \<open>PM2Client\<close>

definition execCommand :: "Pm2 \<Rightarrow> Call \<Rightarrow> App \<Rightarrow> (error + unit) \<times> App" where
  "execCommand w c s =
     (let s' = s\<lparr>calls := calls s @ [c]\<rparr>
      in case cmdReply w (calls s) c of
           Some err \<Rightarrow> (Inl err, s')
         | None \<Rightarrow> (Inr (), s'))"

definition ensureConnected :: "Pm2 \<Rightarrow> App \<Rightarrow> (error + unit) \<times> App" where
  "ensureConnected w s =
     (if connected s then (Inr (), s)
      else
        let s' = s\<lparr>calls := calls s @ [Connect]\<rparr>
        in case cmdReply w (calls s) Connect of
             Some err \<Rightarrow> (Inl err, s')
           | None \<Rightarrow> (Inr (), s'\<lparr>connected := True\<rparr>))"

text \<open>\<open>pm2.disconnect()\<close> takes no callback: the call is recorded and cannot fail.\<close>

definition disconnect :: "App \<Rightarrow> App" where
  "disconnect s =
     (if \<not> connected s then s
      else s\<lparr>calls := calls s @ [Disconnect], connected := False\<rparr>)"

definition toManagedProcess :: "int \<Rightarrow> ProcessDescription \<Rightarrow> ManagedProcess" where
  "toManagedProcess now proc =
     \<lparr>pmId = (case pm_id proc of None \<Rightarrow> - 1 | Some i \<Rightarrow> i),
      name = (case pd_name proc of None \<Rightarrow> ''unknown'' | Some n \<Rightarrow> n),
      namespace =
        Some (case Option.bind (pm2_env proc) env_namespace of
                None \<Rightarrow> ''default'' | Some ns \<Rightarrow> ns),
      pid = pd_pid proc,
      status =
        (case Option.bind (pm2_env proc) env_status of
           None \<Rightarrow> ''unknown'' | Some st \<Rightarrow> st),
      uptime =
        (case Option.bind (pm2_env proc) pm_uptime of
           None \<Rightarrow> None
         | Some t \<Rightarrow> if t = 0 then None else Some (now - t)),
      cpu = Option.bind (monit proc) monit_cpu,
      memory = Option.bind (monit proc) monit_memory,
      instances = Option.bind (pm2_env proc) env_instances,
      restarts = Option.bind (pm2_env proc) restart_time,
      script = Option.bind (pm2_env proc) pm_exec_path,
      execMode = Option.bind (pm2_env proc) exec_mode\<rparr>"

definition listProcesses :: "Pm2 \<Rightarrow> App \<Rightarrow> (error + ManagedProcess list) \<times> App" where
  "listProcesses w s =
     (case ensureConnected w s of
        (Inl err, s1) \<Rightarrow> (Inl err, s1)
      | (Inr _, s1) \<Rightarrow>
          (let s2 = s1\<lparr>calls := calls s1 @ [ListCall]\<rparr>
           in (case listReply w (calls s1) of
                 Inl err \<Rightarrow> (Inl err, s2)
               | Inr processDescriptionList \<Rightarrow>
                   (Inr (map (toManagedProcess (clock w)) processDescriptionList), s2))))"

text \<open>Every command method is \<open>ensureConnected\<close> followed by one \<open>execCommand\<close>.\<close>

definition clientCommand :: "Pm2 \<Rightarrow> Call \<Rightarrow> App \<Rightarrow> (error + unit) \<times> App" where
  "clientCommand w c s =
     (case ensureConnected w s of
        (Inl err, s1) \<Rightarrow> (Inl err, s1)
      | (Inr _, s1) \<Rightarrow> execCommand w c s1)"

definition startAll :: "Pm2 \<Rightarrow> App \<Rightarrow> (error + unit) \<times> App" where
  "startAll w = clientCommand w (StartCall (ByName ''all''))"

definition stopAll :: "Pm2 \<Rightarrow> App \<Rightarrow> (error + unit) \<times> App" where
  "stopAll w = clientCommand w (StopCall (ByName ''all''))"

definition restartAll :: "Pm2 \<Rightarrow> App \<Rightarrow> (error + unit) \<times> App" where
  "restartAll w = clientCommand w (RestartCall (ByName ''all''))"

definition reloadAll :: "Pm2 \<Rightarrow> App \<Rightarrow> (error + unit) \<times> App" where
  "reloadAll w = clientCommand w (ReloadCall (ByName ''all''))"

definition startProcess :: "Pm2 \<Rightarrow> string \<Rightarrow> App \<Rightarrow> (error + unit) \<times> App" where
  "startProcess w target = clientCommand w (StartCall (ByName target))"

definition stopProcess :: "Pm2 \<Rightarrow> Target \<Rightarrow> App \<Rightarrow> (error + unit) \<times> App" where
  "stopProcess w idOrName = clientCommand w (StopCall idOrName)"

definition restartProcess :: "Pm2 \<Rightarrow> Target \<Rightarrow> App \<Rightarrow> (error + unit) \<times> App" where
  "restartProcess w idOrName = clientCommand w (RestartCall idOrName)"

definition deleteProcess :: "Pm2 \<Rightarrow> Target \<Rightarrow> App \<Rightarrow> (error + unit) \<times> App" where
  "deleteProcess w idOrName = clientCommand w (DeleteCall idOrName)"

definition reloadProcess :: "Pm2 \<Rightarrow> Target \<Rightarrow> App \<Rightarrow> (error + unit) \<times> App" where
  "reloadProcess w idOrName = clientCommand w (ReloadCall idOrName)"


subsection \<open>Notifications, filter and search\<close>

definition showNotification :: "string \<Rightarrow> Severity \<Rightarrow> App \<Rightarrow> App" where
  "showNotification message type s = s\<lparr>notifications := notifications s @ [(type, message)]\<rparr>"

text \<open>
  \<open>toLowerCase\<close> on the ASCII letters (a \<open>string\<close> here is a list of 8-bit characters)
  and \<open>String.prototype.includes\<close> (here \<open>includes_str\<close>): the needle occurs at some offset of the haystack.
\<close>

definition lowerChar :: "char \<Rightarrow> char" where
  "lowerChar c =
     (if CHR ''A'' \<le> c \<and> c \<le> CHR ''Z'' then char_of (of_char c + (32::nat)) else c)"

definition toLowerCase :: "string \<Rightarrow> string" where
  "toLowerCase str = map lowerChar str"

fun includes_str :: "string \<Rightarrow> string \<Rightarrow> bool" where
  "includes_str [] needle = (needle = [])"
| "includes_str (c # cs) needle =
     (take (length needle) (c # cs) = needle \<or> includes_str cs needle)"

definition matchesQuery :: "string \<Rightarrow> ManagedProcess \<Rightarrow> bool" where
  "matchesQuery query p =
     (includes_str (toLowerCase (name p)) query
      \<or> (case namespace p of None \<Rightarrow> False | Some ns \<Rightarrow> includes_str (toLowerCase ns) query)
      \<or> includes_str (toLowerCase (status p)) query)"

definition applyFilter :: "App \<Rightarrow> App" where
  "applyFilter s =
     (let filtered = processes s;
          filtered =
            (if viewMode s = Running then filter (\<lambda>p. status p = ''online'') filtered
             else if viewMode s = Stopped then filter (\<lambda>p. status p \<noteq> ''online'') filtered
             else filtered);
          filtered =
            (if searchQuery s \<noteq> []
             then filter (matchesQuery (toLowerCase (searchQuery s))) filtered
             else filtered)
      in s\<lparr>filteredProcesses := filtered\<rparr>)"

definition modeLabel :: "ViewMode \<Rightarrow> string" where
  "modeLabel mode =
     (case mode of All \<Rightarrow> ''All Processes'' | Running \<Rightarrow> ''Running Only''
      | Stopped \<Rightarrow> ''Stopped Only'')"

definition setViewMode :: "ViewMode \<Rightarrow> App \<Rightarrow> App" where
  "setViewMode mode s =
     showNotification (''View: '' @ modeLabel mode) Info (applyFilter (s\<lparr>viewMode := mode\<rparr>))"

definition startSearch :: "App \<Rightarrow> App" where
  "startSearch s = s\<lparr>searchMode := True, searchQuery := []\<rparr>"

text \<open>The search box's \<open>submit\<close> and \<open>cancel\<close> callbacks.\<close>

definition searchSubmit :: "string \<Rightarrow> App \<Rightarrow> App" where
  "searchSubmit val s = (applyFilter (s\<lparr>searchQuery := val\<rparr>))\<lparr>searchMode := False\<rparr>"

definition searchBoxCancel :: "App \<Rightarrow> App" where
  "searchBoxCancel s = s\<lparr>searchMode := False\<rparr>"

definition cancelSearch :: "App \<Rightarrow> App" where
  "cancelSearch s = applyFilter (s\<lparr>searchMode := False, searchQuery := []\<rparr>)"

subsection \<open>Selection\<close>

text \<open>
  The list that drives the table and the selection, written in the source at each use as
  \<open>this.searchQuery ? this.filteredProcesses : this.processes\<close>.
\<close>

definition activeList :: "App \<Rightarrow> ManagedProcess list" where
  "activeList s = (if searchQuery s \<noteq> [] then filteredProcesses s else processes s)"

text \<open>\<open>procs[this.selectedIndex]\<close>: an index outside the array reads \<open>undefined\<close>.\<close>

definition getSelectedProcess :: "App \<Rightarrow> ManagedProcess option" where
  "getSelectedProcess s =
     (let procs = activeList s
      in if 0 \<le> selectedIndex s \<and> selectedIndex s < int (length procs)
         then Some (procs ! nat (selectedIndex s)) else None)"

definition changeSelection :: "int \<Rightarrow> App \<Rightarrow> App" where
  "changeSelection offset s =
     (let procs = activeList s
      in if length procs = 0 then s
         else s\<lparr>selectedIndex :=
                  max 0 (min (selectedIndex s + offset) (int (length procs) - 1))\<rparr>)"

definition jumpToFirst :: "App \<Rightarrow> App" where
  "jumpToFirst s = s\<lparr>selectedIndex := 0\<rparr>"

definition jumpToLast :: "App \<Rightarrow> App" where
  "jumpToLast s = s\<lparr>selectedIndex := max 0 (int (length (activeList s)) - 1)\<rparr>"

text \<open>The table's own \<open>select\<close> event.\<close>

definition rowSelect :: "int \<Rightarrow> App \<Rightarrow> App" where
  "rowSelect index s = s\<lparr>selectedIndex := index\<rparr>"

subsection \<open>Polling\<close>

text \<open>
  After the assignment to \<open>this.processes\<close> the \<open>try\<close> block only filters and
  renders; on a list of well-typed \<open>ManagedProcess\<close> values none of these calls throws,
  so the \<open>catch\<close> branch is reached from a rejected \<open>listProcesses\<close> only.
\<close>

definition refreshProcesses :: "Pm2 \<Rightarrow> bool \<Rightarrow> App \<Rightarrow> App" where
  "refreshProcesses w force s =
     (if paused s \<and> \<not> force then s
      else
        (case listProcesses w s of
           (Inr ps, s1) \<Rightarrow> applyFilter (s1\<lparr>processes := ps\<rparr>)
         | (Inl err, s1) \<Rightarrow> showNotification (''Error refreshing: '' @ err) Error s1))"

subsection \<open>Log routing\<close>

definition appendLog :: "string \<Rightarrow> string \<Rightarrow> bool \<Rightarrow> App \<Rightarrow> App" where
  "appendLog pname dat isErr s =
     s\<lparr>logLines := logLines s @ [\<lparr>processName = pname, data = dat, isError = isErr\<rparr>]\<rparr>"

definition isSelectedProcess :: "int \<Rightarrow> App \<Rightarrow> bool" where
  "isSelectedProcess i s =
     (case getSelectedProcess s of None \<Rightarrow> False | Some proc \<Rightarrow> pmId proc = i)"

text \<open>
  The two listeners that \<open>subscribeToLogs\<close> hands to \<open>launchBus\<close>; they differ in the
  error flag only (\<open>False\<close> for \<open>log:out\<close>, \<open>True\<close> for \<open>log:err\<close>).
\<close>

definition logListener :: "bool \<Rightarrow> string \<Rightarrow> ProcessDescription \<Rightarrow> App \<Rightarrow> App" where
  "logListener isErr message proc s =
     (let i = (case pm_id proc of None \<Rightarrow> - 1 | Some j \<Rightarrow> j)
      in if isSelectedProcess i s
         then appendLog (case pd_name proc of None \<Rightarrow> ''unknown'' | Some n \<Rightarrow> n) message isErr s
         else s)"

text \<open>A bus packet; \<open>handleLog\<close> and \<open>handleErrorLog\<close> drop a packet without a process.\<close>

record Packet =
  process :: "ProcessDescription option"
  payload :: string

definition handleLog :: "Packet \<Rightarrow> App \<Rightarrow> App" where
  "handleLog packet s =
     (case process packet of None \<Rightarrow> s | Some proc \<Rightarrow> logListener False (payload packet) proc s)"

definition handleErrorLog :: "Packet \<Rightarrow> App \<Rightarrow> App" where
  "handleErrorLog packet s =
     (case process packet of None \<Rightarrow> s | Some proc \<Rightarrow> logListener True (payload packet) proc s)"

subsection \<open>Actions\<close>

text \<open>
  \<open>shutdown\<close>, bound to \<open>q\<close> on the screen. The timers it clears and the log
  subscription it ends are not part of the state.
\<close>

definition shutdown :: "App \<Rightarrow> App" where
  "shutdown s = (disconnect (showNotification ''Shutting down...'' Info s))\<lparr>exited := True\<rparr>"

text \<open>
  The confirmation box binds six key names: \<open>y\<close> and \<open>Y\<close> resolve the prompt to true,
  \<open>n\<close>, \<open>N\<close>, \<open>escape\<close> and \<open>q\<close> to false. A key is identified by the name under which
  the toolkit reports it. While the box has the focus the toolkit hands a key press to the
  bindings of the screen first and to those of the box next. Of the six names the screen
  binds two: \<open>escape\<close> to \<open>cancelSearch\<close> and \<open>q\<close> to \<open>shutdown\<close>.
\<close>

datatype ConfirmKey = Key_y | Key_Y | Key_n | Key_N | Key_escape | Key_q

fun screenBinding :: "ConfirmKey \<Rightarrow> App \<Rightarrow> App" where
  "screenBinding Key_escape s = cancelSearch s"
| "screenBinding Key_q s = shutdown s"
| "screenBinding k s = s"

text \<open>\<open>confirm\<close>, as the value its promise resolves to on the key that answers it.\<close>

fun confirm :: "string \<Rightarrow> ConfirmKey \<Rightarrow> bool" where
  "confirm message Key_y = True"
| "confirm message Key_Y = True"
| "confirm message k = False"

definition wrapAction ::
  "Pm2 \<Rightarrow> string \<Rightarrow> (App \<Rightarrow> (error + unit) \<times> App) \<Rightarrow> App \<Rightarrow> App" where
  "wrapAction w description action s =
     (case action (showNotification (description @ ''...'') Info s) of
        (Inr _, s1) \<Rightarrow>
          showNotification (description @ '' completed'') Success (refreshProcesses w True s1)
      | (Inl err, s1) \<Rightarrow> showNotification (''Failed: '' @ err) Error s1)"

text \<open>The loop of the delete-all handler: a rejected \<open>deleteProcess\<close> leaves the loop.\<close>

fun deleteEach :: "Pm2 \<Rightarrow> ManagedProcess list \<Rightarrow> App \<Rightarrow> (error + unit) \<times> App" where
  "deleteEach w [] s = (Inr (), s)"
| "deleteEach w (proc # procs) s =
     (case deleteProcess w (ById (pmId proc)) s of
        (Inl err, s1) \<Rightarrow> (Inl err, s1)
      | (Inr _, s1) \<Rightarrow> deleteEach w procs s1)"

definition deleteAllAction :: "Pm2 \<Rightarrow> App \<Rightarrow> (error + unit) \<times> App" where
  "deleteAllAction w s =
     (case listProcesses w s of
        (Inl err, s1) \<Rightarrow> (Inl err, s1)
      | (Inr procs, s1) \<Rightarrow> deleteEach w procs s1)"

text \<open>
  The key handlers of the bulk actions. Before its \<open>await\<close> the \<open>d\<close> handler only
  shows the confirmation box; \<open>keyD\<close> takes the key that answers the prompt and the state
  in which that key arrives, and runs the screen's binding of the key and then what the
  handler does once the prompt is resolved.
\<close>

definition keyS :: "Pm2 \<Rightarrow> App \<Rightarrow> App" where
  "keyS w = wrapAction w ''Starting all processes'' (startAll w)"

definition keyR :: "Pm2 \<Rightarrow> App \<Rightarrow> App" where
  "keyR w = wrapAction w ''Restarting all processes'' (restartAll w)"

definition keyX :: "Pm2 \<Rightarrow> App \<Rightarrow> App" where
  "keyX w = wrapAction w ''Stopping all processes'' (stopAll w)"

definition keyShiftS :: "Pm2 \<Rightarrow> App \<Rightarrow> App" where
  "keyShiftS w = wrapAction w ''Reloading all processes'' (reloadAll w)"

definition keyD :: "Pm2 \<Rightarrow> ConfirmKey \<Rightarrow> App \<Rightarrow> App" where
  "keyD w k s =
     (let s0 = screenBinding k s
      in if confirm ''Delete ALL processes? This cannot be undone!'' k
         then wrapAction w ''Deleting all processes'' (deleteAllAction w) s0
         else s0)"

text \<open>The calls that ask the registry to delete a process.\<close>

fun isDeleteCall :: "Call \<Rightarrow> bool" where
  "isDeleteCall (DeleteCall t) = True"
| "isDeleteCall c = False"

subsection \<open>Commands that re-run the filter and search projection\<close>

text \<open>
  The view-mode keys, a submitted search, a cancelled search, the refresh timer's tick and
  the forced refresh key, and a run of such commands from left to right.
\<close>

datatype Command =
    OnSetFilter ViewMode | OnSearch string | OnSearchClear | OnTick | OnForceRefresh

fun dispatch :: "Pm2 \<Rightarrow> Command \<Rightarrow> App \<Rightarrow> App" where
  "dispatch w (OnSetFilter mode) s = setViewMode mode s"
| "dispatch w (OnSearch val) s = searchSubmit val (startSearch s)"
| "dispatch w OnSearchClear s = cancelSearch s"
| "dispatch w OnTick s = refreshProcesses w False s"
| "dispatch w OnForceRefresh s = refreshProcesses w True (showNotification ''Refreshing...'' Info s)"

fun run :: "Pm2 \<Rightarrow> Command list \<Rightarrow> App \<Rightarrow> App" where
  "run w [] s = s"
| "run w (c # cs) s = run w cs (dispatch w c s)"

section \<open>A concrete registry for the examples\<close>

text \<open>
  Two processes, \<open>zeta\<close> (id 0, online) and \<open>alpha\<close> (id 1, stopped). The first
  \<open>pm2.list\<close> reports both, in this order, the second only \<open>zeta\<close>, every later one
  none. Stopping or deleting process 0 is refused; every other command succeeds.
\<close>

definition describe :: "int \<Rightarrow> string \<Rightarrow> string \<Rightarrow> ProcessDescription" where
  "describe i n st =
     \<lparr>pm_id = Some i, pd_name = Some n, pd_pid = None,
      pm2_env =
        Some \<lparr>env_namespace = None, env_status = Some st, pm_uptime = None,
              env_instances = None, restart_time = None, pm_exec_path = None,
              exec_mode = None\<rparr>,
      monit = None\<rparr>"

definition zeta :: ProcessDescription where
  "zeta = describe 0 ''zeta'' ''online''"

definition alpha :: ProcessDescription where
  "alpha = describe 1 ''alpha'' ''stopped''"

definition exampleRegistry :: Pm2 where
  "exampleRegistry =
     \<lparr>listReply =
        (\<lambda>h. let polls = length (filter (\<lambda>c. c = ListCall) h)
             in if polls = 0 then Inr [zeta, alpha]
                else if polls = 1 then Inr [zeta] else Inr []),
      cmdReply =
        (\<lambda>h c. if c = DeleteCall (ById 0) \<or> c = StopCall (ById 0)
               then Some ''operation not permitted'' else None),
      clock = 1000\<rparr>"

text \<open>
  A registry that always lists \<open>zeta\<close> (id 0), \<open>alpha\<close> (id 1) and \<open>omega\<close> (id 2) and
  refuses to delete process 1 only.
\<close>

definition omega :: ProcessDescription where
  "omega = describe 2 ''omega'' ''online''"

definition pickyRegistry :: Pm2 where
  "pickyRegistry =
     \<lparr>listReply = (\<lambda>h. Inr [zeta, alpha, omega]),
      cmdReply = (\<lambda>h c. if c = DeleteCall (ById 1) then Some ''process is protected'' else None),
      clock = 1000\<rparr>"

text \<open>A registry whose daemon answers no listing.\<close>

definition downRegistry :: Pm2 where
  "downRegistry =
     \<lparr>listReply = (\<lambda>h. Inl ''daemon unreachable''), cmdReply = (\<lambda>h c. None), clock = 1000\<rparr>"

text \<open>A log event without a process id, named \<open>zeta\<close>.\<close>

definition unnumberedZeta :: ProcessDescription where
  "unnumberedZeta = zeta\<lparr>pm_id := None\<rparr>"

section \<open>Properties of the formatter\<close>

lemma digit_char_isDigit: "d < 10 \<Longrightarrow> isDigit (digit_char d)"
proof -
  assume "d < 10"
  then have "d \<in> {0,1,2,3,4,5,6,7,8,9}" by auto
  then show ?thesis by (auto simp: digit_char_def isDigit_def)
qed

lemma string_of_nat_digits: "\<forall>c \<in> set (string_of_nat n). isDigit c"
proof (induction n rule: string_of_nat.induct)
  case (1 n)
  show ?case
  proof (cases "n < 10")
    case True
    then show ?thesis by (subst string_of_nat.simps) (simp add: digit_char_isDigit)
  next
    case False
    with 1 show ?thesis
      by (subst string_of_nat.simps) (simp add: digit_char_isDigit)
  qed
qed

lemma dropWhile_digits:
  "\<not> isDigit c \<Longrightarrow> dropWhile isDigit (string_of_nat n @ c # rest) = c # rest"
  using string_of_nat_digits [of n] by (simp add: dropWhile_append3)

lemma string_of_int_nonneg: "0 \<le> i \<Longrightarrow> string_of_int i = string_of_nat (nat i)"
  by (simp add: string_of_int_def)

lemma not_digit_s: "\<not> isDigit (CHR ''s'')" by (simp add: isDigit_def)
lemma not_digit_m: "\<not> isDigit (CHR ''m'')" by (simp add: isDigit_def)
lemma not_digit_h: "\<not> isDigit (CHR ''h'')" by (simp add: isDigit_def)

lemma displayedUnit_formatUptime:
  "displayedUnit (formatUptime (Some ms)) =
     (if ms \<le> 0 then 0 else if ms < 60000 then 1 else if ms < 3600000 then 2 else 3)"
proof (cases "ms \<le> 0")
  case True
  then show ?thesis by (auto simp: formatUptime_def displayedUnit_def isDigit_def)
next
  case False
  then have pos: "0 < ms" by simp
  define ts where "ts = ms div 1000"
  have ts0: "0 \<le> ts" using pos by (simp add: ts_def)
  have h0: "0 \<le> ts div 3600" using ts0 by simp
  have m0: "0 \<le> (ts mod 3600) div 60" by simp
  have s0: "0 \<le> ts mod 60" by simp
  have hpos: "0 < ts div 3600 \<longleftrightarrow> 3600000 \<le> ms"
    unfolding ts_def by linarith
  have mpos: "0 < (ts mod 3600) div 60 \<longleftrightarrow> 60000 \<le> ms" if "ts div 3600 = 0"
  proof -
    have lt: "ts < 3600" using that ts0 by linarith
    then have "ts mod 3600 = ts" using ts0 by simp
    moreover have "0 < ts div 60 \<longleftrightarrow> 60 \<le> ts" by linarith
    moreover have "60 \<le> ts \<longleftrightarrow> 60000 \<le> ms" unfolding ts_def by linarith
    ultimately show ?thesis by simp
  qed
  show ?thesis
  proof (cases "3600000 \<le> ms")
    case True
    with hpos have "0 < ts div 3600" by simp
    then show ?thesis using pos True h0
      by (simp add: formatUptime_def Let_def ts_def [symmetric] string_of_int_nonneg
          displayedUnit_def dropWhile_digits not_digit_h)
  next
    case big: False
    with hpos have hz: "ts div 3600 = 0" using h0 by linarith
    show ?thesis
    proof (cases "60000 \<le> ms")
      case True
      with mpos hz have "0 < (ts mod 3600) div 60" by simp
      then show ?thesis using pos True big hz m0
        by (simp add: formatUptime_def Let_def ts_def [symmetric] string_of_int_nonneg
            displayedUnit_def dropWhile_digits not_digit_m)
    next
      case False
      with mpos hz have "\<not> 0 < (ts mod 3600) div 60" by simp
      then show ?thesis using pos False big hz s0
        by (simp add: formatUptime_def Let_def ts_def [symmetric] string_of_int_nonneg
            displayedUnit_def dropWhile_digits not_digit_s)
    qed
  qed
qed

text \<open>
  Claim C7 as stated has \<open>formatUptime(0) = "0s"\<close>. The guard \<open>!ms\<close> catches \<open>0\<close>,
  so the output at 0 is the placeholder.
\<close>

theorem formatUptime_zero_counterexample: "formatUptime (Some 0) \<noteq> ''0s''"
  by (simp add: formatUptime_def)

text \<open>
  Claim C7, amended: \<open>formatUptime(0)\<close> is \<open>"-"\<close>, \<open>formatUptime(65000)\<close> is
  \<open>"1m 5s"\<close>, \<open>formatUptime(7384000)\<close> is \<open>"2h 3m"\<close>, and the unit the output leads
  with never goes down as the duration grows (placeholder, seconds, minutes, hours).
\<close>

theorem formatUptime_buckets:
  "formatUptime (Some 0) = ''-''
   \<and> formatUptime (Some 65000) = ''1m 5s''
   \<and> formatUptime (Some 7384000) = ''2h 3m''
   \<and> (\<forall>a b. a \<le> b \<longrightarrow>
         displayedUnit (formatUptime (Some a)) \<le> displayedUnit (formatUptime (Some b)))"
proof -
  have 1: "formatUptime (Some 0) = ''-''" by (simp add: formatUptime_def)
  have 2: "formatUptime (Some 65000) = ''1m 5s''" by code_simp
  have 3: "formatUptime (Some 7384000) = ''2h 3m''" by code_simp
  have 4: "\<forall>a b. a \<le> b \<longrightarrow>
         displayedUnit (formatUptime (Some a)) \<le> displayedUnit (formatUptime (Some b))"
    by (simp add: displayedUnit_formatUptime)
  from 1 2 3 4 show ?thesis by blast
qed

theorem formatUptime_buckets_witness:
  "(999::int) \<le> 60000
   \<and> displayedUnit (formatUptime (Some 999)) = 1
   \<and> displayedUnit (formatUptime (Some 60000)) = 2"
proof -
  have "displayedUnit (formatUptime (Some 999)) \<le> displayedUnit (formatUptime (Some 60000))"
    using formatUptime_buckets by simp
  moreover have "displayedUnit (formatUptime (Some 999)) = 1" by code_simp
  moreover have "displayedUnit (formatUptime (Some 60000)) = 2" by code_simp
  ultimately show ?thesis by simp
qed

text \<open>
  Claim C8 as stated has \<open>formatBytes(1073741824) = "1 GB"\<close>. Below 100 the value is
  printed with one decimal, so a whole gigabyte reads \<open>"1.0 GB"\<close>.
\<close>

theorem formatBytes_gib_counterexample: "formatBytes (Some 1073741824) \<noteq> ''1 GB''"
proof -
  have "formatBytes (Some 1073741824) = ''1.0 GB''" by code_simp
  then show ?thesis by simp
qed

text \<open>
  Claim C8, amended: \<open>formatBytes(0) = "-"\<close>, \<open>formatBytes(1536) = "1.5 KB"\<close> and
  \<open>formatBytes(1073741824) = "1.0 GB"\<close>.
\<close>

theorem formatBytes_examples:
  "formatBytes (Some 0) = ''-''
   \<and> formatBytes (Some 1536) = ''1.5 KB''
   \<and> formatBytes (Some 1073741824) = ''1.0 GB''"
proof -
  have 1: "formatBytes (Some 0) = ''-''" by (simp add: formatBytes_def)
  have 2: "formatBytes (Some 1536) = ''1.5 KB''" by code_simp
  have 3: "formatBytes (Some 1073741824) = ''1.0 GB''" by code_simp
  from 1 2 3 show ?thesis by blast
qed

section \<open>Properties of the client\<close>

lemma ensureConnected_view:
  assumes "ensureConnected w s = (r, s1)"
  shows "processes s1 = processes s \<and> filteredProcesses s1 = filteredProcesses s
         \<and> selectedIndex s1 = selectedIndex s \<and> searchQuery s1 = searchQuery s
         \<and> viewMode s1 = viewMode s \<and> paused s1 = paused s
         \<and> notifications s1 = notifications s \<and> logLines s1 = logLines s"
  using assms by (auto simp: ensureConnected_def Let_def split: if_splits option.splits)

lemma ensureConnected_ok:
  assumes "ensureConnected w s = (Inr u, s1)"
  shows "connected s1"
  using assms by (auto simp: ensureConnected_def Let_def split: if_splits option.splits)

lemma ensureConnected_connected: "connected s \<Longrightarrow> ensureConnected w s = (Inr (), s)"
  by (simp add: ensureConnected_def)

lemma listProcesses_view:
  assumes "listProcesses w s = (r, s1)"
  shows "processes s1 = processes s \<and> filteredProcesses s1 = filteredProcesses s
         \<and> selectedIndex s1 = selectedIndex s \<and> searchQuery s1 = searchQuery s
         \<and> viewMode s1 = viewMode s \<and> paused s1 = paused s
         \<and> notifications s1 = notifications s \<and> logLines s1 = logLines s"
proof (cases "ensureConnected w s")
  case (Pair r0 s0)
  note v = ensureConnected_view [OF Pair]
  show ?thesis
  proof (cases r0)
    case (Inl e)
    with Pair assms v show ?thesis by (simp add: listProcesses_def)
  next
    case (Inr u)
    with Pair assms v show ?thesis
      by (auto simp: listProcesses_def Let_def split: sum.splits)
  qed
qed

lemma listProcesses_ok:
  assumes "listProcesses w s = (Inr ps, s1)"
  shows "connected s1"
proof (cases "ensureConnected w s")
  case (Pair r0 s0)
  show ?thesis
  proof (cases r0)
    case (Inl e)
    with Pair assms show ?thesis by (simp add: listProcesses_def)
  next
    case (Inr u)
    with Pair have "connected s0" by (simp add: ensureConnected_ok)
    with Pair Inr assms show ?thesis
      by (auto simp: listProcesses_def Let_def split: sum.splits)
  qed
qed

lemma listProcesses_connected:
  "connected s \<Longrightarrow>
   listProcesses w s =
     (case listReply w (calls s) of
        Inl err \<Rightarrow> Inl err
      | Inr pds \<Rightarrow> Inr (map (toManagedProcess (clock w)) pds),
      s\<lparr>calls := calls s @ [ListCall]\<rparr>)"
  by (simp add: listProcesses_def ensureConnected_connected Let_def split: sum.splits)

lemma applyFilter_view:
  "processes (applyFilter s) = processes s \<and> selectedIndex (applyFilter s) = selectedIndex s
   \<and> searchQuery (applyFilter s) = searchQuery s \<and> viewMode (applyFilter s) = viewMode s
   \<and> calls (applyFilter s) = calls s \<and> notifications (applyFilter s) = notifications s
   \<and> logLines (applyFilter s) = logLines s \<and> connected (applyFilter s) = connected s
   \<and> paused (applyFilter s) = paused s"
  by (simp add: applyFilter_def Let_def)

section \<open>Polling\<close>

text \<open>
  Claim C2: when \<open>listProcesses\<close> fails in a poll that reaches it (the poll is forced or
  the dashboard is not paused), the process list, the filtered list and the selection are
  what they were, and one notification of severity error is emitted.
\<close>

theorem refreshProcesses_failure_keeps_state:
  assumes "listProcesses w s = (Inl err, s1)" and "force \<or> \<not> paused s"
  shows "processes (refreshProcesses w force s) = processes s
         \<and> filteredProcesses (refreshProcesses w force s) = filteredProcesses s
         \<and> selectedIndex (refreshProcesses w force s) = selectedIndex s
         \<and> notifications (refreshProcesses w force s) =
             notifications s @ [(Error, ''Error refreshing: '' @ err)]"
  using assms listProcesses_view [OF assms(1)]
  by (auto simp: refreshProcesses_def showNotification_def)

theorem refreshProcesses_failure_keeps_state_witness:
  "listProcesses downRegistry initialApp =
     (Inl ''daemon unreachable'', initialApp\<lparr>connected := True, calls := [Connect, ListCall]\<rparr>)
   \<and> processes (refreshProcesses downRegistry False initialApp) = processes initialApp
   \<and> notifications (refreshProcesses downRegistry False initialApp) =
       [(Error, ''Error refreshing: daemon unreachable'')]"
proof -
  have l: "listProcesses downRegistry initialApp =
     (Inl ''daemon unreachable'', initialApp\<lparr>connected := True, calls := [Connect, ListCall]\<rparr>)"
    by (simp add: listProcesses_def ensureConnected_def downRegistry_def initialApp_def)
  have p: "False \<or> \<not> paused initialApp" by (simp add: initialApp_def)
  from refreshProcesses_failure_keeps_state [OF l p] l show ?thesis
    by (simp add: initialApp_def)
qed

text \<open>
  Claim C9 as stated: after a successful poll the list is sorted by name. The first poll of
  the example registry reports \<open>zeta\<close> before \<open>alpha\<close>, and so does the dashboard.
\<close>

theorem processes_sorted_counterexample:
  "map name (processes (refreshProcesses exampleRegistry True initialApp)) = [''zeta'', ''alpha'']
   \<and> \<not> sorted (map name (processes (refreshProcesses exampleRegistry True initialApp)))"
proof -
  have "map name (processes (refreshProcesses exampleRegistry True initialApp)) = [''zeta'', ''alpha'']"
    by code_simp
  then show ?thesis by simp
qed

text \<open>
  Claim C9, amended: after a successful poll the list holds every process the registry
  reported, each one converted by \<open>listProcesses\<close>, in the order the registry reported
  them; no sorting takes place.
\<close>

theorem refreshProcesses_registry_order:
  assumes "ensureConnected w s = (Inr u, s1)" and "listReply w (calls s1) = Inr pds"
    and "force \<or> \<not> paused s"
  shows "processes (refreshProcesses w force s) = map (toManagedProcess (clock w)) pds
         \<and> map name (processes (refreshProcesses w force s)) =
             map (\<lambda>pd. case pd_name pd of None \<Rightarrow> ''unknown'' | Some n \<Rightarrow> n) pds"
proof -
  have "listProcesses w s =
          (Inr (map (toManagedProcess (clock w)) pds), s1\<lparr>calls := calls s1 @ [ListCall]\<rparr>)"
    using assms(1,2) by (simp add: listProcesses_def Let_def)
  then have "processes (refreshProcesses w force s) = map (toManagedProcess (clock w)) pds"
    using assms(3) by (auto simp: refreshProcesses_def applyFilter_view)
  then show ?thesis by (simp add: toManagedProcess_def)
qed

theorem refreshProcesses_registry_order_witness:
  "ensureConnected exampleRegistry initialApp =
     (Inr (), initialApp\<lparr>connected := True, calls := [Connect]\<rparr>)
   \<and> listReply exampleRegistry [Connect] = Inr [zeta, alpha]
   \<and> processes (refreshProcesses exampleRegistry False initialApp) =
       map (toManagedProcess 1000) [zeta, alpha]"
proof -
  have e: "ensureConnected exampleRegistry initialApp =
     (Inr (), initialApp\<lparr>connected := True, calls := [Connect]\<rparr>)"
    by (simp add: ensureConnected_def exampleRegistry_def initialApp_def)
  have l: "listReply exampleRegistry (calls (initialApp\<lparr>connected := True, calls := [Connect]\<rparr>))
             = Inr [zeta, alpha]"
    by (simp add: exampleRegistry_def)
  have p: "False \<or> \<not> paused initialApp" by (simp add: initialApp_def)
  from refreshProcesses_registry_order [OF e l p] e l show ?thesis
    by (simp add: exampleRegistry_def)
qed

section \<open>Selection\<close>

lemma refreshProcesses_selectedIndex:
  "selectedIndex (refreshProcesses w force s) = selectedIndex s"
proof -
  obtain r s1 where l: "listProcesses w s = (r, s1)" by (cases "listProcesses w s")
  from listProcesses_view [OF l] l show ?thesis
    by (cases r) (simp_all add: refreshProcesses_def showNotification_def applyFilter_view)
qed

lemma dispatch_selectedIndex: "selectedIndex (dispatch w c s) = selectedIndex s"
proof (cases c)
  case (OnSetFilter mode)
  then show ?thesis by (simp add: setViewMode_def showNotification_def applyFilter_view)
next
  case (OnSearch val)
  then show ?thesis by (simp add: searchSubmit_def startSearch_def applyFilter_view)
next
  case OnSearchClear
  then show ?thesis by (simp add: cancelSearch_def applyFilter_view)
next
  case OnTick
  then show ?thesis by (simp add: refreshProcesses_selectedIndex)
next
  case OnForceRefresh
  then show ?thesis by (simp add: refreshProcesses_selectedIndex showNotification_def)
qed

lemma run_selectedIndex: "selectedIndex (run w cs s) = selectedIndex s"
  by (induction cs arbitrary: s) (simp_all add: dispatch_selectedIndex)

lemma changeSelection_in_range:
  assumes "activeList s \<noteq> []"
  shows "0 \<le> selectedIndex (changeSelection offset s)
         \<and> selectedIndex (changeSelection offset s)
             < int (length (activeList (changeSelection offset s)))"
proof -
  have a: "activeList (changeSelection offset s) = activeList s"
    by (simp add: changeSelection_def activeList_def Let_def)
  have "0 < length (activeList s)" using assms by simp
  then show ?thesis unfolding a by (auto simp: changeSelection_def Let_def)
qed

text \<open>
  Claim C1 as stated: the projection clamps the selection. In the example the second row is
  selected while the list has two rows; the next poll reports one row and the poll after it
  none, and the index stays 1 both times.
\<close>

theorem selection_clamp_counterexample:
  "selectedIndex (changeSelection 1 (run exampleRegistry [OnTick] initialApp)) = 1
   \<and> length (activeList (changeSelection 1 (run exampleRegistry [OnTick] initialApp))) = 2
   \<and> selectedIndex (run exampleRegistry [OnTick]
        (changeSelection 1 (run exampleRegistry [OnTick] initialApp))) = 1
   \<and> length (activeList (run exampleRegistry [OnTick]
        (changeSelection 1 (run exampleRegistry [OnTick] initialApp)))) = 1
   \<and> selectedIndex (run exampleRegistry [OnTick, OnTick]
        (changeSelection 1 (run exampleRegistry [OnTick] initialApp))) = 1
   \<and> activeList (run exampleRegistry [OnTick, OnTick]
        (changeSelection 1 (run exampleRegistry [OnTick] initialApp))) = []"
  by code_simp

text \<open>
  Claim C1, amended: no sequence of filter-mode changes, search-query changes and polls
  changes the selection index, so the projection does not clamp it; after a
  \<open>changeSelection\<close> on a non-empty active list the index is at least 0 and below the
  length of the active list.
\<close>

theorem projection_keeps_selectedIndex:
  "selectedIndex (run w cs s) = selectedIndex s
   \<and> (activeList s \<noteq> [] \<longrightarrow>
        0 \<le> selectedIndex (changeSelection offset s)
        \<and> selectedIndex (changeSelection offset s)
            < int (length (activeList (changeSelection offset s))))"
  using run_selectedIndex changeSelection_in_range by blast

theorem projection_keeps_selectedIndex_witness:
  "activeList (run exampleRegistry [OnTick] initialApp) \<noteq> []
   \<and> selectedIndex (changeSelection 10 (run exampleRegistry [OnTick] initialApp)) = 1
   \<and> selectedIndex (run exampleRegistry [OnSetFilter Running, OnSearch ''alp'', OnTick]
        (changeSelection 10 (run exampleRegistry [OnTick] initialApp))) = 1"
proof -
  have a: "activeList (run exampleRegistry [OnTick] initialApp) \<noteq> []" by code_simp
  have b: "selectedIndex (changeSelection 10 (run exampleRegistry [OnTick] initialApp)) = 1"
    by code_simp
  from projection_keeps_selectedIndex
    [of exampleRegistry "[OnSetFilter Running, OnSearch ''alp'', OnTick]"
      "changeSelection 10 (run exampleRegistry [OnTick] initialApp)"]
  have "selectedIndex (run exampleRegistry [OnSetFilter Running, OnSearch ''alp'', OnTick]
        (changeSelection 10 (run exampleRegistry [OnTick] initialApp))) =
        selectedIndex (changeSelection 10 (run exampleRegistry [OnTick] initialApp))"
    by blast
  with a b show ?thesis by simp
qed

text \<open>
  Claim C10: reading the selection never fails. It yields no process exactly when the index
  is outside the active list, a process of the active list otherwise; and on an empty active
  list \<open>changeSelection\<close> changes nothing.
\<close>

theorem selection_access_total:
  "(getSelectedProcess s = None \<longleftrightarrow>
      selectedIndex s < 0 \<or> int (length (activeList s)) \<le> selectedIndex s)
   \<and> (\<forall>p. getSelectedProcess s = Some p \<longrightarrow> p \<in> set (activeList s))
   \<and> (activeList s = [] \<longrightarrow>
        getSelectedProcess s = None \<and> changeSelection offset s = s)"
  by (auto simp: getSelectedProcess_def changeSelection_def Let_def)

theorem selection_access_total_witness:
  "activeList initialApp = []
   \<and> getSelectedProcess initialApp = None
   \<and> changeSelection 10 initialApp = initialApp
   \<and> getSelectedProcess (rowSelect 7 (run exampleRegistry [OnTick] initialApp)) = None
   \<and> getSelectedProcess (rowSelect (- 1) (run exampleRegistry [OnTick] initialApp)) = None"
proof -
  have a: "activeList initialApp = []" by (simp add: activeList_def initialApp_def)
  have l: "length (activeList (rowSelect 7 (run exampleRegistry [OnTick] initialApp))) = 2"
    "length (activeList (rowSelect (- 1) (run exampleRegistry [OnTick] initialApp))) = 2"
    by code_simp+
  have i: "selectedIndex (rowSelect 7 (run exampleRegistry [OnTick] initialApp)) = 7"
    "selectedIndex (rowSelect (- 1) (run exampleRegistry [OnTick] initialApp)) = - 1"
    by (simp_all add: rowSelect_def)
  from selection_access_total [of initialApp 10] a
  have "getSelectedProcess initialApp = None \<and> changeSelection 10 initialApp = initialApp"
    by blast
  moreover from selection_access_total
    [of "rowSelect 7 (run exampleRegistry [OnTick] initialApp)" 0] l i
  have "getSelectedProcess (rowSelect 7 (run exampleRegistry [OnTick] initialApp)) = None"
    by simp
  moreover from selection_access_total
    [of "rowSelect (- 1) (run exampleRegistry [OnTick] initialApp)" 0] l i
  have "getSelectedProcess (rowSelect (- 1) (run exampleRegistry [OnTick] initialApp)) = None"
    by simp
  ultimately show ?thesis using a by simp
qed

section \<open>Log routing\<close>

text \<open>
  Claim C5 as stated lets an event without a process id through when its name is that of
  the selected process. With \<open>zeta\<close> (id 0) selected, an event named \<open>zeta\<close> that
  carries no id is not appended.
\<close>

theorem log_name_fallback_counterexample:
  "map_option name (getSelectedProcess (run exampleRegistry [OnTick] initialApp)) = Some ''zeta''
   \<and> pm_id unnumberedZeta = None
   \<and> pd_name unnumberedZeta = Some ''zeta''
   \<and> logLines (logListener False ''started'' unnumberedZeta
        (run exampleRegistry [OnTick] initialApp)) = []"
  by code_simp

text \<open>
  Claim C5, amended: an event is appended to the log view if and only if a process is
  selected and its id equals the event's process id, an event without an id counting as
  id \<open>-1\<close>; names are not compared. An event that is not appended changes nothing.
\<close>

theorem log_routing_by_id:
  "((\<exists>p. getSelectedProcess s = Some p
         \<and> pmId p = (case pm_id proc of None \<Rightarrow> - 1 | Some j \<Rightarrow> j)) \<longrightarrow>
      logLines (logListener isErr message proc s) =
        logLines s @
          [\<lparr>processName = (case pd_name proc of None \<Rightarrow> ''unknown'' | Some n \<Rightarrow> n),
            data = message, isError = isErr\<rparr>])
   \<and> (\<not> (\<exists>p. getSelectedProcess s = Some p
         \<and> pmId p = (case pm_id proc of None \<Rightarrow> - 1 | Some j \<Rightarrow> j)) \<longrightarrow>
      logListener isErr message proc s = s)"
  by (auto simp: logListener_def isSelectedProcess_def appendLog_def Let_def
      split: option.splits)

theorem log_routing_by_id_witness:
  "map_option pmId (getSelectedProcess (run exampleRegistry [OnTick] initialApp)) = Some 0
   \<and> pm_id alpha = Some 1
   \<and> logListener True ''crashed'' alpha (run exampleRegistry [OnTick] initialApp) =
       run exampleRegistry [OnTick] initialApp
   \<and> map_option pmId
        (getSelectedProcess (changeSelection 1 (run exampleRegistry [OnTick] initialApp))) = Some 1
   \<and> logLines (logListener True ''crashed'' alpha
        (changeSelection 1 (run exampleRegistry [OnTick] initialApp))) =
       [\<lparr>processName = ''alpha'', data = ''crashed'', isError = True\<rparr>]"
proof -
  let ?s = "run exampleRegistry [OnTick] initialApp"
  let ?s' = "changeSelection 1 ?s"
  have a: "map_option pmId (getSelectedProcess ?s) = Some 0" by code_simp
  have b: "pm_id alpha = Some 1" "pd_name alpha = Some ''alpha''"
    by (simp_all add: alpha_def describe_def)
  have c: "map_option pmId (getSelectedProcess ?s') = Some 1" by code_simp
  have d: "logLines ?s' = []" by code_simp
  from a b have n: "\<not> (\<exists>p. getSelectedProcess ?s = Some p
         \<and> pmId p = (case pm_id alpha of None \<Rightarrow> - 1 | Some j \<Rightarrow> j))"
    by auto
  from c b have y: "\<exists>p. getSelectedProcess ?s' = Some p
         \<and> pmId p = (case pm_id alpha of None \<Rightarrow> - 1 | Some j \<Rightarrow> j)"
    by auto
  from log_routing_by_id [of ?s alpha True "''crashed''"] n
  have 1: "logListener True ''crashed'' alpha ?s = ?s" by blast
  from log_routing_by_id [of ?s' alpha True "''crashed''"] y
  have 2: "logLines (logListener True ''crashed'' alpha ?s') =
        logLines ?s' @
          [\<lparr>processName = (case pd_name alpha of None \<Rightarrow> ''unknown'' | Some n \<Rightarrow> n),
            data = ''crashed'', isError = True\<rparr>]" by blast
  from a b c 1 2 d show ?thesis by simp
qed

section \<open>Actions\<close>

lemma refreshProcesses_forced_calls:
  "connected s \<Longrightarrow> calls (refreshProcesses w True s) = calls s @ [ListCall]"
  by (cases "listReply w (calls s)")
    (simp_all add: refreshProcesses_def listProcesses_connected showNotification_def
      applyFilter_view)

text \<open>
  Claim C3 as stated: a forced refresh follows the action whether it succeeds or fails.
  Stopping process 0 is refused by the example registry; the record of pm2 calls then ends
  with the stop, no listing follows it, and the process list is the one shown before.
\<close>

theorem wrapAction_failure_counterexample:
  "fst (stopProcess exampleRegistry (ById 0)
          (showNotification ''Stop zeta...'' Info (run exampleRegistry [OnTick] initialApp)))
     = Inl ''operation not permitted''
   \<and> calls (wrapAction exampleRegistry ''Stop zeta'' (stopProcess exampleRegistry (ById 0))
        (run exampleRegistry [OnTick] initialApp)) = [Connect, ListCall, StopCall (ById 0)]
   \<and> processes (wrapAction exampleRegistry ''Stop zeta'' (stopProcess exampleRegistry (ById 0))
        (run exampleRegistry [OnTick] initialApp))
       = processes (run exampleRegistry [OnTick] initialApp)"
  by code_simp

text \<open>
  Claim C3, amended: when the registry operation succeeds the dispatcher runs a forced
  refresh (one more listing on an open connection) and then reports completion; when it
  fails the dispatcher reports the error and runs no refresh: no further pm2 call is made
  and the process list is left as the action left it.
\<close>

theorem wrapAction_refreshes_on_success_only:
  assumes "action (showNotification (description @ ''...'') Info s) = (r, s1)"
  shows "(r = Inr () \<longrightarrow>
            wrapAction w description action s =
              showNotification (description @ '' completed'') Success
                (refreshProcesses w True s1)
            \<and> (connected s1 \<longrightarrow>
                 calls (wrapAction w description action s) = calls s1 @ [ListCall]))
         \<and> (\<forall>err. r = Inl err \<longrightarrow>
              calls (wrapAction w description action s) = calls s1
              \<and> processes (wrapAction w description action s) = processes s1
              \<and> notifications (wrapAction w description action s) =
                  notifications s1 @ [(Error, ''Failed: '' @ err)])"
  using assms
  by (auto simp: wrapAction_def showNotification_def refreshProcesses_forced_calls)

theorem wrapAction_refreshes_on_success_only_witness:
  "fst (restartProcess exampleRegistry (ById 1)
          (showNotification ''Restart alpha...'' Info (run exampleRegistry [OnTick] initialApp)))
     = Inr ()
   \<and> calls (wrapAction exampleRegistry ''Restart alpha'' (restartProcess exampleRegistry (ById 1))
        (run exampleRegistry [OnTick] initialApp))
       = [Connect, ListCall, RestartCall (ById 1), ListCall]
   \<and> fst (stopProcess exampleRegistry (ById 0)
          (showNotification ''Stop zeta...'' Info (run exampleRegistry [OnTick] initialApp)))
     = Inl ''operation not permitted''
   \<and> notifications (wrapAction exampleRegistry ''Stop zeta'' (stopProcess exampleRegistry (ById 0))
        (run exampleRegistry [OnTick] initialApp))
       = [(Info, ''Stop zeta...''), (Error, ''Failed: operation not permitted'')]"
proof -
  let ?s = "run exampleRegistry [OnTick] initialApp"
  let ?a = "restartProcess exampleRegistry (ById 1)"
  let ?b = "stopProcess exampleRegistry (ById 0)"
  obtain s1 where a: "?a (showNotification (''Restart alpha'' @ ''...'') Info ?s) = (Inr (), s1)"
    by (cases "?a (showNotification (''Restart alpha'' @ ''...'') Info ?s)")
      (simp add: restartProcess_def clientCommand_def ensureConnected_def execCommand_def
        exampleRegistry_def Let_def split: if_splits)
  have s1: "s1 = snd (?a (showNotification (''Restart alpha'' @ ''...'') Info ?s))"
    using a by simp
  have c1: "connected s1" "calls s1 = [Connect, ListCall, RestartCall (ById 1)]"
    unfolding s1 by code_simp+
  obtain s2 where b: "?b (showNotification (''Stop zeta'' @ ''...'') Info ?s)
      = (Inl ''operation not permitted'', s2)"
    by (cases "?b (showNotification (''Stop zeta'' @ ''...'') Info ?s)")
      (simp add: stopProcess_def clientCommand_def ensureConnected_def execCommand_def
        exampleRegistry_def Let_def split: if_splits)
  have s2: "s2 = snd (?b (showNotification (''Stop zeta'' @ ''...'') Info ?s))"
    using b by simp
  have c2: "notifications s2 = [(Info, ''Stop zeta...'')]"
    unfolding s2 by code_simp
  from wrapAction_refreshes_on_success_only
    [where action = ?a and description = "''Restart alpha''" and s = ?s
      and w = exampleRegistry, OF a] c1(1)
  have "calls (wrapAction exampleRegistry ''Restart alpha'' ?a ?s) = calls s1 @ [ListCall]"
    by blast
  with c1(2) have 1: "calls (wrapAction exampleRegistry ''Restart alpha'' ?a ?s)
       = [Connect, ListCall, RestartCall (ById 1), ListCall]" by simp
  from wrapAction_refreshes_on_success_only
    [where action = ?b and description = "''Stop zeta''" and s = ?s
      and w = exampleRegistry, OF b]
  have "notifications (wrapAction exampleRegistry ''Stop zeta'' ?b ?s)
       = notifications s2 @ [(Error, ''Failed: '' @ ''operation not permitted'')]" by blast
  with c2 have 2: "notifications (wrapAction exampleRegistry ''Stop zeta'' ?b ?s)
       = [(Info, ''Stop zeta...''), (Error, ''Failed: operation not permitted'')]" by simp
  from a b 1 2 show ?thesis by simp
qed

section \<open>Confirmation\<close>

lemma screenBinding_view:
  "filter isDeleteCall (calls (screenBinding k s)) = filter isDeleteCall (calls s)
   \<and> processes (screenBinding k s) = processes s
   \<and> selectedIndex (screenBinding k s) = selectedIndex s"
  by (cases k)
    (simp_all add: cancelSearch_def applyFilter_view shutdown_def disconnect_def
      showNotification_def)

text \<open>
  Claim C6 as stated: a refusal leaves the state unchanged. \<open>escape\<close> and \<open>q\<close> refuse
  the prompt and are bound on the screen as well: refusing with \<open>escape\<close> while the search
  \<open>zeta\<close> is active clears the search, so the table shows two rows instead of one, and
  refusing with \<open>q\<close> disconnects and ends the program.
\<close>

theorem keyD_refusal_counterexample:
  "confirm ''Delete ALL processes? This cannot be undone!'' Key_escape = False
   \<and> searchQuery (run exampleRegistry [OnTick, OnSearch ''zeta''] initialApp) = ''zeta''
   \<and> length (activeList (run exampleRegistry [OnTick, OnSearch ''zeta''] initialApp)) = 1
   \<and> searchQuery (keyD exampleRegistry Key_escape
        (run exampleRegistry [OnTick, OnSearch ''zeta''] initialApp)) = []
   \<and> length (activeList (keyD exampleRegistry Key_escape
        (run exampleRegistry [OnTick, OnSearch ''zeta''] initialApp))) = 2
   \<and> confirm ''Delete ALL processes? This cannot be undone!'' Key_q = False
   \<and> calls (keyD exampleRegistry Key_q
        (run exampleRegistry [OnTick, OnSearch ''zeta''] initialApp))
       = [Connect, ListCall, Disconnect]
   \<and> exited (keyD exampleRegistry Key_q
        (run exampleRegistry [OnTick, OnSearch ''zeta''] initialApp))"
  by code_simp

text \<open>
  Claim C6, amended: when the confirmation of delete-all is answered by a refusal (\<open>n\<close>,
  \<open>N\<close>, \<open>escape\<close> or \<open>q\<close>), no delete is asked of the registry and the process list and
  the selection index are what they were; when the refusal is \<open>n\<close> or \<open>N\<close> the whole
  state is what it was.
\<close>

theorem keyD_refused_no_delete:
  assumes "\<not> confirm ''Delete ALL processes? This cannot be undone!'' k"
  shows "filter isDeleteCall (calls (keyD w k s)) = filter isDeleteCall (calls s)
         \<and> processes (keyD w k s) = processes s
         \<and> selectedIndex (keyD w k s) = selectedIndex s
         \<and> (k = Key_n \<or> k = Key_N \<longrightarrow> keyD w k s = s)"
proof -
  from assms have k: "keyD w k s = screenBinding k s" by (simp add: keyD_def)
  have "k = Key_n \<or> k = Key_N \<longrightarrow> screenBinding k s = s" by auto
  with k screenBinding_view [of k s] show ?thesis by simp
qed

theorem keyD_refused_no_delete_witness:
  "confirm ''Delete ALL processes? This cannot be undone!'' Key_n = False
   \<and> keyD exampleRegistry Key_n (run exampleRegistry [OnTick, OnSearch ''zeta''] initialApp)
       = run exampleRegistry [OnTick, OnSearch ''zeta''] initialApp
   \<and> confirm ''Delete ALL processes? This cannot be undone!'' Key_q = False
   \<and> filter isDeleteCall (calls (keyD exampleRegistry Key_q
        (run exampleRegistry [OnTick, OnSearch ''zeta''] initialApp))) = []
   \<and> map name (processes (keyD exampleRegistry Key_q
        (run exampleRegistry [OnTick, OnSearch ''zeta''] initialApp))) = [''zeta'', ''alpha'']"
proof -
  let ?s = "run exampleRegistry [OnTick, OnSearch ''zeta''] initialApp"
  have n: "\<not> confirm ''Delete ALL processes? This cannot be undone!'' Key_n"
    and q: "\<not> confirm ''Delete ALL processes? This cannot be undone!'' Key_q"
    by simp_all
  have c: "filter isDeleteCall (calls ?s) = []" by code_simp
  have p: "map name (processes ?s) = [''zeta'', ''alpha'']" by code_simp
  from keyD_refused_no_delete [OF n, of exampleRegistry ?s]
  have 1: "keyD exampleRegistry Key_n ?s = ?s" by blast
  from keyD_refused_no_delete [OF q, of exampleRegistry ?s]
  have "filter isDeleteCall (calls (keyD exampleRegistry Key_q ?s)) = filter isDeleteCall (calls ?s)"
    and "processes (keyD exampleRegistry Key_q ?s) = processes ?s"
    by blast+
  with c p have 2: "filter isDeleteCall (calls (keyD exampleRegistry Key_q ?s)) = []"
    and 3: "map name (processes (keyD exampleRegistry Key_q ?s)) = [''zeta'', ''alpha'']"
    by simp_all
  from n q 1 2 3 show ?thesis by simp
qed

section \<open>Delete-all\<close>

lemma deleteProcess_connected:
  "connected s \<Longrightarrow>
   deleteProcess w t s =
     (case cmdReply w (calls s) (DeleteCall t) of Some err \<Rightarrow> Inl err | None \<Rightarrow> Inr (),
      s\<lparr>calls := calls s @ [DeleteCall t]\<rparr>)"
  by (simp add: deleteProcess_def clientCommand_def ensureConnected_connected execCommand_def
      Let_def split: option.splits)

text \<open>
  The calls of the loop: it issues the deletes of the first \<open>n\<close> targets, each of the first
  \<open>n - 1\<close> answered without error; on an error \<open>n\<close> is the position of the refused
  delete, otherwise all targets were deleted.
\<close>

lemma deleteEach_trace:
  assumes "connected s" and "deleteEach w procs s = (r, s1)"
  shows "\<exists>n\<le>length procs.
           s1 = s\<lparr>calls := calls s @ map (\<lambda>p. DeleteCall (ById (pmId p))) (take n procs)\<rparr>
           \<and> (\<forall>j<n - (case r of Inl err \<Rightarrow> 1 | Inr u \<Rightarrow> 0).
                 cmdReply w
                   (calls s @ map (\<lambda>p. DeleteCall (ById (pmId p))) (take j procs))
                   (DeleteCall (ById (pmId (procs ! j)))) = None)
           \<and> (case r of
                 Inr u \<Rightarrow> n = length procs
               | Inl err \<Rightarrow>
                   0 < n
                   \<and> cmdReply w
                       (calls s @ map (\<lambda>p. DeleteCall (ById (pmId p))) (take (n - 1) procs))
                       (DeleteCall (ById (pmId (procs ! (n - 1))))) = Some err)"
  using assms
proof (induction procs arbitrary: s)
  case Nil
  then show ?case by auto
next
  case (Cons p ps)
  let ?D = "\<lambda>p. DeleteCall (ById (pmId p))"
  let ?s' = "s\<lparr>calls := calls s @ [?D p]\<rparr>"
  let ?k = "case r of Inl err \<Rightarrow> 1 | Inr u \<Rightarrow> (0::nat)"
  note dp = deleteProcess_connected [OF Cons.prems(1), of w "ById (pmId p)"]
  show ?case
  proof (cases "cmdReply w (calls s) (?D p)")
    case (Some err)
    with dp Cons.prems(2) have "r = Inl err" "s1 = ?s'" by simp_all
    with Some have
      "1 \<le> length (p # ps)
       \<and> s1 = s\<lparr>calls := calls s @ map ?D (take 1 (p # ps))\<rparr>
       \<and> (\<forall>j<1 - ?k. cmdReply w (calls s @ map ?D (take j (p # ps)))
             (?D ((p # ps) ! j)) = None)
       \<and> (case r of
             Inr u \<Rightarrow> 1 = length (p # ps)
           | Inl err \<Rightarrow>
               0 < (1::nat)
               \<and> cmdReply w (calls s @ map ?D (take (1 - 1) (p # ps)))
                   (?D ((p # ps) ! (1 - 1))) = Some err)"
      by simp
    then show ?thesis by blast
  next
    case None
    with dp Cons.prems(2) have de: "deleteEach w ps ?s' = (r, s1)" by simp
    have "connected ?s'" using Cons.prems(1) by simp
    from Cons.IH [OF this de] obtain n where n: "n \<le> length ps"
      and s1: "s1 = ?s'\<lparr>calls := calls ?s' @ map ?D (take n ps)\<rparr>"
      and before: "\<forall>j<n - ?k.
          cmdReply w (calls ?s' @ map ?D (take j ps)) (?D (ps ! j)) = None"
      and r: "case r of
                Inr u \<Rightarrow> n = length ps
              | Inl err \<Rightarrow>
                  0 < n
                  \<and> cmdReply w (calls ?s' @ map ?D (take (n - 1) ps))
                      (?D (ps ! (n - 1))) = Some err"
      by blast
    have a: "Suc n \<le> length (p # ps)" using n by simp
    have b: "s1 = s\<lparr>calls := calls s @ map ?D (take (Suc n) (p # ps))\<rparr>"
      using s1 by simp
    have npos: "0 < n" if "r = Inl err" for err using r that by simp
    have c: "\<forall>j<Suc n - ?k.
        cmdReply w (calls s @ map ?D (take j (p # ps))) (?D ((p # ps) ! j)) = None"
    proof (intro allI impI)
      fix j
      assume j: "j < Suc n - ?k"
      show "cmdReply w (calls s @ map ?D (take j (p # ps))) (?D ((p # ps) ! j)) = None"
      proof (cases j)
        case 0
        with None show ?thesis by simp
      next
        case (Suc i)
        with j have "i < n - ?k" by (cases r) auto
        with before have "cmdReply w (calls ?s' @ map ?D (take i ps)) (?D (ps ! i)) = None"
          by blast
        with Suc show ?thesis by simp
      qed
    qed
    have d: "case r of
               Inr u \<Rightarrow> Suc n = length (p # ps)
             | Inl err \<Rightarrow>
                 0 < Suc n
                 \<and> cmdReply w (calls s @ map ?D (take (Suc n - 1) (p # ps)))
                     (?D ((p # ps) ! (Suc n - 1))) = Some err"
    proof (cases r)
      case (Inr u)
      with r show ?thesis by simp
    next
      case (Inl err)
      with r have pos: "0 < n"
        and f: "cmdReply w (calls ?s' @ map ?D (take (n - 1) ps)) (?D (ps ! (n - 1))) = Some err"
        by simp_all
      from pos obtain m where m: "n = Suc m" by (cases n) simp_all
      from f show ?thesis using Inl by (simp add: m)
    qed
    from a b c d show ?thesis by blast
  qed
qed

text \<open>
  Claim C4 as stated: after a failed delete the remaining targets are still attempted. The
  example registry lists processes 0 and 1 and refuses to delete process 0; the confirmed
  delete-all issues the delete for 0 and nothing after it.
\<close>

theorem deleteAll_continues_counterexample:
  "map_sum id (map pmId) (fst (listProcesses exampleRegistry initialApp)) = Inr [0, 1]
   \<and> calls (keyD exampleRegistry Key_y initialApp) = [Connect, ListCall, DeleteCall (ById 0)]
   \<and> DeleteCall (ById 1) \<notin> set (calls (keyD exampleRegistry Key_y initialApp))"
  by code_simp

text \<open>
  Claim C4, amended: a confirmed delete-all deletes the listed targets one after another in
  list order and stops at the first delete that fails: every delete before it was answered
  without error, the targets after it are not attempted, the failure is reported by one
  error notification, and no refresh follows.
\<close>

theorem keyD_stops_at_first_failure:
  assumes "confirm ''Delete ALL processes? This cannot be undone!'' k"
    and "listProcesses w (showNotification ''Deleting all processes...'' Info s)
           = (Inr procs, s1)"
    and "deleteEach w procs s1 = (Inl err, s2)"
  shows "\<exists>n. 0 < n \<and> n \<le> length procs
           \<and> (\<forall>j<n - 1.
                 cmdReply w
                   (calls s1 @ map (\<lambda>p. DeleteCall (ById (pmId p))) (take j procs))
                   (DeleteCall (ById (pmId (procs ! j)))) = None)
           \<and> cmdReply w
               (calls s1 @ map (\<lambda>p. DeleteCall (ById (pmId p))) (take (n - 1) procs))
               (DeleteCall (ById (pmId (procs ! (n - 1))))) = Some err
           \<and> calls (keyD w k s) =
               calls s1 @ map (\<lambda>p. DeleteCall (ById (pmId p))) (take n procs)
           \<and> notifications (keyD w k s) =
               notifications s @
                 [(Info, ''Deleting all processes...''), (Error, ''Failed: '' @ err)]
           \<and> processes (keyD w k s) = processes s"
proof -
  let ?D = "\<lambda>p. DeleteCall (ById (pmId p))"
  from assms(1) have "k = Key_y \<or> k = Key_Y" by (cases k) simp_all
  then have sb: "screenBinding k s = s" by auto
  have k: "keyD w k s = showNotification (''Failed: '' @ err) Error s2"
    using assms sb by (simp add: keyD_def wrapAction_def deleteAllAction_def)
  have conn: "connected s1" using assms(2) by (rule listProcesses_ok)
  from deleteEach_trace [OF conn assms(3)] obtain n where n: "n \<le> length procs"
    and s2: "s2 = s1\<lparr>calls := calls s1 @ map ?D (take n procs)\<rparr>"
    and before: "\<forall>j<n - 1. cmdReply w (calls s1 @ map ?D (take j procs))
                   (?D (procs ! j)) = None"
    and pos: "0 < n"
    and f: "cmdReply w (calls s1 @ map ?D (take (n - 1) procs))
              (?D (procs ! (n - 1))) = Some err"
    by auto
  note v = listProcesses_view [OF assms(2)]
  have c: "calls (keyD w k s) = calls s1 @ map ?D (take n procs)"
    unfolding k s2 by (simp add: showNotification_def)
  have nt: "notifications (keyD w k s) =
      notifications s @ [(Info, ''Deleting all processes...''), (Error, ''Failed: '' @ err)]"
    unfolding k s2 using v by (simp add: showNotification_def)
  have p: "processes (keyD w k s) = processes s"
    unfolding k s2 using v by (simp add: showNotification_def)
  from pos n before f c nt p show ?thesis by blast
qed

theorem keyD_stops_at_first_failure_witness:
  "confirm ''Delete ALL processes? This cannot be undone!'' Key_y
   \<and> map_sum id (map pmId)
        (fst (listProcesses pickyRegistry
                (showNotification ''Deleting all processes...'' Info initialApp)))
       = Inr [0, 1, 2]
   \<and> calls (keyD pickyRegistry Key_y initialApp) =
       [Connect, ListCall, DeleteCall (ById 0), DeleteCall (ById 1)]
   \<and> DeleteCall (ById 2) \<notin> set (calls (keyD pickyRegistry Key_y initialApp))
   \<and> notifications (keyD pickyRegistry Key_y initialApp) =
       [(Info, ''Deleting all processes...''), (Error, ''Failed: process is protected'')]"
proof -
  let ?D = "\<lambda>p. DeleteCall (ById (pmId p))"
  let ?s0 = "showNotification ''Deleting all processes...'' Info initialApp"
  let ?ps = "map (toManagedProcess 1000) [zeta, alpha, omega]"
  let ?s1 = "?s0\<lparr>connected := True, calls := [Connect, ListCall]\<rparr>"
  let ?s2 = "?s1\<lparr>calls := [Connect, ListCall, DeleteCall (ById 0), DeleteCall (ById 1)]\<rparr>"
  have h1: "confirm ''Delete ALL processes? This cannot be undone!'' Key_y" by simp
  have h2: "listProcesses pickyRegistry ?s0 = (Inr ?ps, ?s1)"
    by (simp add: listProcesses_def ensureConnected_def pickyRegistry_def initialApp_def
        showNotification_def)
  have ids: "map pmId ?ps = [0, 1, 2]"
    by (simp add: toManagedProcess_def zeta_def alpha_def omega_def describe_def)
  then have id0: "pmId (?ps ! 0) = 0" and id1: "pmId (?ps ! 1) = 1" by simp_all
  have h3: "deleteEach pickyRegistry ?ps ?s1 = (Inl ''process is protected'', ?s2)"
    by (simp add: deleteProcess_def clientCommand_def ensureConnected_def execCommand_def
        pickyRegistry_def toManagedProcess_def zeta_def alpha_def omega_def describe_def)
  have reply: "cmdReply pickyRegistry h (DeleteCall (ById i)) =
      (if i = 1 then Some ''process is protected'' else None)" for h i
    by (simp add: pickyRegistry_def)
  from keyD_stops_at_first_failure [OF h1 h2 h3] obtain n
    where pos: "0 < n" and le: "n \<le> length ?ps"
      and before: "\<forall>j<n - 1. cmdReply pickyRegistry (calls ?s1 @ map ?D (take j ?ps))
                     (?D (?ps ! j)) = None"
      and f: "cmdReply pickyRegistry (calls ?s1 @ map ?D (take (n - 1) ?ps))
                (?D (?ps ! (n - 1))) = Some ''process is protected''"
      and c: "calls (keyD pickyRegistry Key_y initialApp) = calls ?s1 @ map ?D (take n ?ps)"
      and nt: "notifications (keyD pickyRegistry Key_y initialApp) =
        notifications initialApp @
          [(Info, ''Deleting all processes...''),
           (Error, ''Failed: '' @ ''process is protected'')]"
    by blast
  have b': "pmId (?ps ! j) \<noteq> 1" if "j < n - 1" for j
    using before [rule_format, OF that] unfolding reply by (simp split: if_splits)
  have f': "pmId (?ps ! (n - 1)) = 1"
    using f unfolding reply by (simp split: if_splits)
  have n2: "n = 2"
  proof (rule ccontr)
    assume "n \<noteq> 2"
    with pos le have "n = 1 \<or> n = 3" by auto
    then show False
    proof
      assume "n = 1"
      with f' id0 show False by simp
    next
      assume "n = 3"
      with b' [of 1] id1 show False by simp
    qed
  qed
  have "map ?D (take 2 ?ps) = [DeleteCall (ById 0), DeleteCall (ById 1)]"
    by (simp add: toManagedProcess_def zeta_def alpha_def describe_def)
  with c n2 have c': "calls (keyD pickyRegistry Key_y initialApp) =
       [Connect, ListCall, DeleteCall (ById 0), DeleteCall (ById 1)]"
    by simp
  from nt have nt': "notifications (keyD pickyRegistry Key_y initialApp) =
       [(Info, ''Deleting all processes...''), (Error, ''Failed: process is protected'')]"
    by (simp add: initialApp_def)
  from h1 h2 ids c' nt' show ?thesis by simp
qed

end
